theory Spec2Isabelle
  imports Main "HOL-Library.Sublist"
begin

section \<open>Python values\<close>

text \<open>
  A Python \<^verbatim>\<open>str\<close> is a sequence of Unicode code points and \<^verbatim>\<open>len\<close> counts code
  points, so a string is a list of code points. \<open>lit\<close> turns an ASCII literal into one.
\<close>

type_synonym ustr = "nat list"

definition lit :: "string \<Rightarrow> ustr" where
  "lit s = map of_char s"

text \<open>The star of line 34 is the single code point U+2B50.\<close>

definition star :: ustr where
  "star = [11088]"

definition nl :: ustr where
  "nl = [10]"

text \<open>
  A row of \<^verbatim>\<open>csv.DictReader\<close> maps the header's column names to cells. A cell is a
  \<^verbatim>\<open>str\<close>, or \<^verbatim>\<open>None\<close> where the data line is shorter than the header (the
  reader's \<^verbatim>\<open>restval\<close>). A column that the header lacks is an absent key. The
  surplus cells of a line longer than the header, which the reader files under the key
  \<^verbatim>\<open>None\<close>, are never read by the program and are left out.
\<close>

datatype cell = Str ustr | NoneVal

type_synonym raw_row = "ustr \<rightharpoonup> cell"

text \<open>The exceptions \<^verbatim>\<open>parse_csv_row\<close> and the filter of \<^verbatim>\<open>search\<close> can raise.\<close>

datatype row_error = KeyError ustr | AttributeError | TypeError

text \<open>\<^verbatim>\<open>row[key]\<close>\<close>

definition getitem :: "raw_row \<Rightarrow> ustr \<Rightarrow> row_error + cell" where
  "getitem row key = (case row key of None \<Rightarrow> Inl (KeyError key) | Some v \<Rightarrow> Inr v)"

text \<open>
  Sequencing: the second step runs on the value of the first unless the first raised.
\<close>

definition and_then :: "'e + 'a \<Rightarrow> ('a \<Rightarrow> 'e + 'b) \<Rightarrow> 'e + 'b" where
  "and_then m f = (case m of Inl e \<Rightarrow> Inl e | Inr x \<Rightarrow> f x)"

text \<open>A method of \<^verbatim>\<open>str\<close> called on a cell: the given exception on \<^verbatim>\<open>None\<close>.\<close>

definition str_or :: "row_error \<Rightarrow> cell \<Rightarrow> row_error + ustr" where
  "str_or e c = (case c of NoneVal \<Rightarrow> Inl e | Str s \<Rightarrow> Inr s)"

text \<open>What an f-string writes for \<^verbatim>\<open>{x}\<close>: \<^verbatim>\<open>str(x)\<close>.\<close>

fun format_cell :: "cell \<Rightarrow> ustr" where
  "format_cell (Str s) = s"
| "format_cell NoneVal = lit ''None''"

text \<open>
  \<^verbatim>\<open>str.strip()\<close> removes leading and trailing whitespace: the code points for which
  \<^verbatim>\<open>str.isspace\<close> holds.
\<close>

definition is_space :: "nat \<Rightarrow> bool" where
  "is_space c =
     ((9 \<le> c \<and> c \<le> 13) \<or> (28 \<le> c \<and> c \<le> 32) \<or> c = 133 \<or> c = 160 \<or> c = 5760 \<or>
      (8192 \<le> c \<and> c \<le> 8202) \<or> c = 8232 \<or> c = 8233 \<or> c = 8239 \<or> c = 8287 \<or> c = 12288)"

definition strip :: "ustr \<Rightarrow> ustr" where
  "strip s = rev (dropWhile is_space (rev (dropWhile is_space s)))"

text \<open>
  \<^verbatim>\<open>str.lower()\<close> follows the Unicode case tables, which are no part of the repository:
  every function below that lowercases takes it as the parameter \<open>lower\<close>. On a string of
  ASCII code points it is \<open>ascii_lower\<close>; \<open>lowers_ascii\<close> says so of a parameter.
\<close>

definition ascii_lower :: "ustr \<Rightarrow> ustr" where
  "ascii_lower s = map (\<lambda>c. if 65 \<le> c \<and> c \<le> 90 then c + 32 else c) s"

definition lowers_ascii :: "(ustr \<Rightarrow> ustr) \<Rightarrow> bool" where
  "lowers_ascii lower = (\<forall>s. list_all (\<lambda>c. c < 128) s \<longrightarrow> lower s = ascii_lower s)"

text \<open>The decimal digits of \<^verbatim>\<open>{resp.status}\<close>.\<close>

fun decimal :: "nat \<Rightarrow> ustr" where
  "decimal n = (if n < 10 then [48 + n] else decimal (n div 10) @ [48 + n mod 10])"

declare decimal.simps [simp del]

section \<open>Constants (lines 16 to 18)\<close>

definition CSV_URL :: ustr where
  "CSV_URL = lit ''https://sheets.artistgrid.cx/artists.csv''"

definition ALLOWED_GUILD_ID :: int where
  "ALLOWED_GUILD_ID = 1395824457527988377"

text \<open>
  \<^verbatim>\<open>GOOGLE_SHEETS_RE = re.compile(r"https://docs\.google\.com/spreadsheets/d/([a-zA-Z0-9-_]{44})")\<close>
  and its \<^verbatim>\<open>match\<close>, which anchors at the start of the string only. \<open>id_char\<close> is the
  character class; the result is group 1 of the match, \<open>None\<close> when there is no match.
\<close>

definition sheets_prefix :: ustr where
  "sheets_prefix = lit ''https://docs.google.com/spreadsheets/d/''"

definition id_char :: "nat \<Rightarrow> bool" where
  "id_char c =
     ((97 \<le> c \<and> c \<le> 122) \<or> (65 \<le> c \<and> c \<le> 90) \<or> (48 \<le> c \<and> c \<le> 57) \<or> c = 45 \<or> c = 95)"

definition GOOGLE_SHEETS_RE_match :: "ustr \<Rightarrow> ustr option" where
  "GOOGLE_SHEETS_RE_match url =
     (let rest = drop (length sheets_prefix) url; sheet_id = take 44 rest
      in if take (length sheets_prefix) url = sheets_prefix \<and> length sheet_id = 44 \<and>
            list_all id_char sheet_id
         then Some sheet_id else None)"

section \<open>parse\_csv\_row (lines 30 to 47)\<close>

text \<open>Lines 32 to 34, on the name as the f-string writes it and the text of the Best cell.\<close>

definition display_name :: "(ustr \<Rightarrow> ustr) \<Rightarrow> ustr \<Rightarrow> ustr \<Rightarrow> ustr" where
  "display_name lower artist_name best =
     (if lower (strip best) = lit ''yes'' then star @ artist_name @ star else artist_name)"

text \<open>Lines 36 to 40, on the text of the URL cell.\<close>

definition trackerhub_prefix :: ustr where
  "trackerhub_prefix = lit ''https://trackerhub.cx/sh/''"

definition rewrite_url :: "ustr \<Rightarrow> ustr" where
  "rewrite_url url =
     (case GOOGLE_SHEETS_RE_match url of
        Some sheet_id \<Rightarrow> trackerhub_prefix @ sheet_id
      | None \<Rightarrow> url)"

text \<open>The f-string of lines 42 to 47.\<close>

definition record_text :: "ustr \<Rightarrow> ustr \<Rightarrow> ustr \<Rightarrow> ustr \<Rightarrow> ustr \<Rightarrow> ustr" where
  "record_text artist_name url credit links_work updated =
     lit ''['' @ artist_name @ lit '']('' @ url @ lit '')'' @ nl @
     lit ''credit: ('' @ credit @ lit '')'' @ nl @
     lit ''Links work: '' @ links_work @ nl @
     lit ''Updated: '' @ updated"

text \<open>
  The function, with each exception as a branch in the order the source raises them:
  a missing key is a \<^verbatim>\<open>KeyError\<close>, \<^verbatim>\<open>None.strip()\<close> an \<^verbatim>\<open>AttributeError\<close>, and
  \<^verbatim>\<open>GOOGLE_SHEETS_RE.match(None)\<close> a \<^verbatim>\<open>TypeError\<close>.
\<close>

definition parse_csv_row :: "(ustr \<Rightarrow> ustr) \<Rightarrow> raw_row \<Rightarrow> row_error + ustr" where
  "parse_csv_row lower row =
     and_then (getitem row (lit ''Artist Name'')) (\<lambda>artist_name.
     and_then (getitem row (lit ''Best'')) (\<lambda>best.
     and_then (str_or AttributeError best) (\<lambda>b.
     and_then (getitem row (lit ''URL'')) (\<lambda>url.
     and_then (str_or TypeError url) (\<lambda>u.
     and_then (getitem row (lit ''Credit'')) (\<lambda>credit.
     and_then (getitem row (lit ''Links Work'')) (\<lambda>links_work.
     and_then (getitem row (lit ''Updated'')) (\<lambda>updated.
       Inr (record_text (display_name lower (format_cell artist_name) b) (rewrite_url u)
              (format_cell credit) (format_cell links_work) (format_cell updated))))))))))"

section \<open>fetch\_csv (lines 49 to 56)\<close>

text \<open>
  What the request meets: a response with its status and decoded text, or no response
  (the session or the decoding raised an exception with the given message).
  \<^verbatim>\<open>csv.DictReader\<close> is library code: the parameter \<open>reader\<close> gives the rows of a text,
  or the message of the \<^verbatim>\<open>csv.Error\<close> it raises.
\<close>

datatype remote = Reply nat ustr | NoReply ustr

datatype fetch_error = HttpError nat | CsvError ustr | ClientError ustr

definition fetch_csv :: "(ustr \<Rightarrow> ustr + raw_row list) \<Rightarrow> remote \<Rightarrow> fetch_error + raw_row list" where
  "fetch_csv reader net =
     (case net of
        NoReply msg \<Rightarrow> Inl (ClientError msg)
      | Reply status text_data \<Rightarrow>
          if status \<noteq> 200 then Inl (HttpError status)
          else (case reader text_data of Inl msg \<Rightarrow> Inl (CsvError msg) | Inr rows \<Rightarrow> Inr rows))"

text \<open>\<^verbatim>\<open>str(e)\<close> of the exception caught at lines 98 and 124.\<close>

fun str_of_exception :: "fetch_error \<Rightarrow> ustr" where
  "str_of_exception (HttpError status) = lit ''Failed to fetch CSV: HTTP '' @ decimal status"
| "str_of_exception (CsvError msg) = msg"
| "str_of_exception (ClientError msg) = msg"

section \<open>send\_paginated\_response (lines 58 to 71)\<close>

text \<open>
  The loop of lines 62 to 66 over the remaining lines, with the list of sealed chunks
  and the accumulator as its state. \<^verbatim>\<open>chunk_size\<close> is a Python \<^verbatim>\<open>int\<close>.
\<close>

fun paginate_loop :: "int \<Rightarrow> ustr list \<Rightarrow> ustr \<Rightarrow> ustr list \<Rightarrow> ustr list \<times> ustr" where
  "paginate_loop chunk_size chunks current_chunk [] = (chunks, current_chunk)"
| "paginate_loop chunk_size chunks current_chunk (line # lines) =
     (if int (length current_chunk) + int (length line) + 2 > chunk_size
      then paginate_loop chunk_size (chunks @ [current_chunk]) ([] @ line @ nl @ nl) lines
      else paginate_loop chunk_size chunks (current_chunk @ line @ nl @ nl) lines)"

text \<open>Lines 60 to 68: the chunks handed to the sending loop.\<close>

definition paginate_chunks :: "ustr list \<Rightarrow> int \<Rightarrow> ustr list" where
  "paginate_chunks lines chunk_size =
     (case paginate_loop chunk_size [] [] lines of
        (chunks, current_chunk) \<Rightarrow>
          if current_chunk \<noteq> [] then chunks @ [current_chunk] else chunks)"

text \<open>
  What a command does to the outside, in order: the ephemeral reply of lines 91 and 117,
  \<^verbatim>\<open>interaction.response.defer()\<close>, the request of line 52, and
  \<^verbatim>\<open>interaction.followup.send\<close>. A send is recorded, not judged: whether Discord accepts
  the text is outside the program.
\<close>

datatype event = SendEphemeral ustr | Defer | HttpGet ustr | FollowupSend ustr

definition send_paginated_response :: "ustr list \<Rightarrow> int \<Rightarrow> event list" where
  "send_paginated_response lines chunk_size = map FollowupSend (paginate_chunks lines chunk_size)"

text \<open>The texts handed to \<^verbatim>\<open>followup.send\<close>, in order.\<close>

fun sent :: "event list \<Rightarrow> ustr list" where
  "sent [] = []"
| "sent (FollowupSend s # evs) = s # sent evs"
| "sent (ev # evs) = sent evs"

text \<open>The records in order, each followed by its blank-line separator.\<close>

definition joined :: "ustr list \<Rightarrow> ustr" where
  "joined lines = concat (map (\<lambda>line. line @ nl @ nl) lines)"

text \<open>
  A group of records fits the budget, or is one record that alone, with its separator,
  exceeds it.
\<close>

definition chunk_ok :: "int \<Rightarrow> ustr list \<Rightarrow> bool" where
  "chunk_ok chunk_size g =
     (int (length (joined g)) \<le> chunk_size \<or>
      (case g of [line] \<Rightarrow> int (length (line @ nl @ nl)) > chunk_size | _ \<Rightarrow> False))"

section \<open>The commands (lines 89 to 132)\<close>

text \<open>
  A command ends with the events it caused and, when an exception left it for the
  command framework, that exception.
\<close>

record outcome =
  trace :: "event list"
  escaped :: "row_error option"

definition unauthorized_message :: ustr where
  "unauthorized_message = lit ''This command can only be used in the authorized server.''"

text \<open>
  The comprehension of lines 103 to 107, before the slice: each row's filter is evaluated,
  then \<^verbatim>\<open>parse_csv_row\<close> on a row that passes, row by row; the first exception ends it.
\<close>

fun matching_lines :: "(ustr \<Rightarrow> ustr) \<Rightarrow> ustr \<Rightarrow> raw_row list \<Rightarrow> row_error + ustr list" where
  "matching_lines lower artist_lower [] = Inr []"
| "matching_lines lower artist_lower (row # data) =
     and_then (getitem row (lit ''Artist Name'')) (\<lambda>name.
     and_then (str_or AttributeError name) (\<lambda>n.
       if sublist artist_lower (lower n)
       then and_then (parse_csv_row lower row) (\<lambda>line.
            and_then (matching_lines lower artist_lower data) (\<lambda>lines. Inr (line # lines)))
       else matching_lines lower artist_lower data))"

text \<open>Lines 102 to 107.\<close>

definition search_results :: "(ustr \<Rightarrow> ustr) \<Rightarrow> ustr \<Rightarrow> raw_row list \<Rightarrow> row_error + ustr list" where
  "search_results lower artist data =
     and_then (matching_lines lower (lower artist) data) (\<lambda>lines. Inr (take 5 lines))"

text \<open>Line 128.\<close>

fun list_results :: "(ustr \<Rightarrow> ustr) \<Rightarrow> raw_row list \<Rightarrow> row_error + ustr list" where
  "list_results lower [] = Inr []"
| "list_results lower (row # data) =
     and_then (parse_csv_row lower row) (\<lambda>line.
     and_then (list_results lower data) (\<lambda>lines. Inr (line # lines)))"

definition no_results_message :: "ustr \<Rightarrow> ustr" where
  "no_results_message artist = lit ''No results found for '' @ [39] @ artist @ [39] @ lit ''.''"

definition search ::
  "(ustr \<Rightarrow> ustr) \<Rightarrow> (ustr \<Rightarrow> ustr + raw_row list) \<Rightarrow> remote \<Rightarrow> int option \<Rightarrow> ustr \<Rightarrow> outcome" where
  "search lower reader net guild_id artist =
     (if guild_id \<noteq> Some ALLOWED_GUILD_ID
      then \<lparr>trace = [SendEphemeral unauthorized_message], escaped = None\<rparr>
      else case fetch_csv reader net of
        Inl e \<Rightarrow>
          \<lparr>trace = [Defer, HttpGet CSV_URL, FollowupSend (str_of_exception e)], escaped = None\<rparr>
      | Inr data \<Rightarrow>
          (case search_results lower artist data of
             Inl e \<Rightarrow> \<lparr>trace = [Defer, HttpGet CSV_URL], escaped = Some e\<rparr>
           | Inr results \<Rightarrow>
               if results = []
               then \<lparr>trace = [Defer, HttpGet CSV_URL, FollowupSend (no_results_message artist)],
                     escaped = None\<rparr>
               else \<lparr>trace = [Defer, HttpGet CSV_URL] @ send_paginated_response results 1800,
                     escaped = None\<rparr>))"

definition list_trackers ::
  "(ustr \<Rightarrow> ustr) \<Rightarrow> (ustr \<Rightarrow> ustr + raw_row list) \<Rightarrow> remote \<Rightarrow> int option \<Rightarrow> outcome" where
  "list_trackers lower reader net guild_id =
     (if guild_id \<noteq> Some ALLOWED_GUILD_ID
      then \<lparr>trace = [SendEphemeral unauthorized_message], escaped = None\<rparr>
      else case fetch_csv reader net of
        Inl e \<Rightarrow>
          \<lparr>trace = [Defer, HttpGet CSV_URL, FollowupSend (str_of_exception e)], escaped = None\<rparr>
      | Inr data \<Rightarrow>
          (case list_results lower data of
             Inl e \<Rightarrow> \<lparr>trace = [Defer, HttpGet CSV_URL], escaped = Some e\<rparr>
           | Inr results \<Rightarrow>
               if results = []
               then \<lparr>trace = [Defer, HttpGet CSV_URL, FollowupSend (lit ''No trackers found.'')],
                     escaped = None\<rparr>
               else \<lparr>trace = [Defer, HttpGet CSV_URL] @ send_paginated_response results 1800,
                     escaped = None\<rparr>))"

section \<open>Notions of the specification\<close>

text \<open>
  The success statuses of HTTP are the class 2xx. This follows the specification's
  words ("a non-success status"); \<^verbatim>\<open>fetch_csv\<close> itself knows only 200.
\<close>

definition http_success :: "nat \<Rightarrow> bool" where
  "http_success status = (200 \<le> status \<and> status < 300)"

text \<open>The six columns the specification requires of every row.\<close>

definition required_keys :: "ustr list" where
  "required_keys = [lit ''Artist Name'', lit ''Best'', lit ''URL'', lit ''Credit'',
     lit ''Links Work'', lit ''Updated'']"

text \<open>
  The raw name of a row contains the query, both lowercased: the filter of line 106 on a
  row whose name is text.
\<close>

definition name_matches :: "(ustr \<Rightarrow> ustr) \<Rightarrow> ustr \<Rightarrow> raw_row \<Rightarrow> bool" where
  "name_matches lower artist row =
     (case row (lit ''Artist Name'') of
        Some (Str n) \<Rightarrow> sublist (lower artist) (lower n)
      | _ \<Rightarrow> False)"

text \<open>A cell that is present and holds text.\<close>

fun is_text :: "cell option \<Rightarrow> bool" where
  "is_text (Some (Str s)) = True"
| "is_text _ = False"

text \<open>
  A row misses a field that \<^verbatim>\<open>parse_csv_row\<close> needs: one of the six columns is absent, or
  the cell of Best or of URL is \<^verbatim>\<open>None\<close>. (A \<^verbatim>\<open>None\<close> in another column is written out
  as the text \<open>None\<close>.)
\<close>

definition unreadable :: "raw_row \<Rightarrow> bool" where
  "unreadable row =
     (list_ex (\<lambda>key. row key = None) required_keys \<or>
      row (lit ''Best'') = Some NoneVal \<or> row (lit ''URL'') = Some NoneVal)"

text \<open>
  A row on which the comprehension of \<^verbatim>\<open>search\<close> raises: its name is absent or
  \<^verbatim>\<open>None\<close>, or its name matches and \<^verbatim>\<open>parse_csv_row\<close> cannot format it.
\<close>

definition raises_in_search :: "(ustr \<Rightarrow> ustr) \<Rightarrow> ustr \<Rightarrow> raw_row \<Rightarrow> bool" where
  "raises_in_search lower artist row =
     (\<not> is_text (row (lit ''Artist Name'')) \<or> (name_matches lower artist row \<and> unreadable row))"

text \<open>
  Containment without regard to case, in the specification's words and for ASCII letters:
  two code points are the same letter when they are equal or one is the capital of the
  other, and the query is in the name when at some position of the name every code point
  of the query meets the same letter.
\<close>

definition is_upper :: "nat \<Rightarrow> bool" where
  "is_upper c = (65 \<le> c \<and> c \<le> 90)"

definition same_letter :: "nat \<Rightarrow> nat \<Rightarrow> bool" where
  "same_letter a b = (a = b \<or> (is_upper a \<and> b = a + 32) \<or> (is_upper b \<and> a = b + 32))"

fun starts_ignoring_case :: "ustr \<Rightarrow> ustr \<Rightarrow> bool" where
  "starts_ignoring_case [] name = True"
| "starts_ignoring_case (a # query) [] = False"
| "starts_ignoring_case (a # query) (b # name) =
     (same_letter a b \<and> starts_ignoring_case query name)"

fun contains_ignoring_case :: "ustr \<Rightarrow> ustr \<Rightarrow> bool" where
  "contains_ignoring_case query [] = (query = [])"
| "contains_ignoring_case query (b # name) =
     (starts_ignoring_case query (b # name) \<or> contains_ignoring_case query name)"


section \<open>Example data\<close>

text \<open>
  A sheet id of 44 characters, a row with all six columns as text, and two rows of a
  dataset: Alice, marked best, with a URL elsewhere; Bob, not marked, with a Google Sheets
  URL that goes on after its id.
\<close>

definition example_sheet_id :: ustr where
  "example_sheet_id = lit ''1zK9-Qv_7hLmN3pRtUwXyZ0aBcDeFgHiJkMoPqSsTuVw''"

definition mk_row :: "ustr \<Rightarrow> ustr \<Rightarrow> ustr \<Rightarrow> ustr \<Rightarrow> ustr \<Rightarrow> ustr \<Rightarrow> raw_row" where
  "mk_row artist best url credit links updated =
     [lit ''Artist Name'' \<mapsto> Str artist, lit ''Best'' \<mapsto> Str best, lit ''URL'' \<mapsto> Str url,
      lit ''Credit'' \<mapsto> Str credit, lit ''Links Work'' \<mapsto> Str links,
      lit ''Updated'' \<mapsto> Str updated]"

definition alice_row :: raw_row where
  "alice_row = mk_row (lit ''Alice'') (lit '' Yes '') (lit ''https://example.com/alice'')
     (lit ''ann'') (lit ''yes'') (lit ''2025-01-01'')"

definition bob_row :: raw_row where
  "bob_row = mk_row (lit ''Bob'') (lit ''no'')
     (sheets_prefix @ example_sheet_id @ lit ''/edit#gid=0'')
     (lit ''ben'') (lit ''no'') (lit ''2025-02-02'')"

text \<open>A reader that finds the given rows in whatever text it is given.\<close>

definition reads_as :: "raw_row list \<Rightarrow> ustr \<Rightarrow> ustr + raw_row list" where
  "reads_as rows text_data = Inr rows"

text \<open>
  Bobby's line of the CSV text holds the name only: the reader fills the other five
  columns with \<^verbatim>\<open>None\<close>.
\<close>

definition bobby_short_row :: raw_row where
  "bobby_short_row =
     [lit ''Artist Name'' \<mapsto> Str (lit ''Bobby''), lit ''Best'' \<mapsto> NoneVal,
      lit ''URL'' \<mapsto> NoneVal, lit ''Credit'' \<mapsto> NoneVal, lit ''Links Work'' \<mapsto> NoneVal,
      lit ''Updated'' \<mapsto> NoneVal]"

text \<open>Bob's formatted record.\<close>

definition bob_text :: ustr where
  "bob_text = record_text (lit ''Bob'') (trackerhub_prefix @ example_sheet_id)
     (lit ''ben'') (lit ''no'') (lit ''2025-02-02'')"

text \<open>
  Seven rows that differ in the name only, six of them matching \<open>bob\<close> in some case,
  and the formatted record of such a row.
\<close>

definition plain_row :: "ustr \<Rightarrow> raw_row" where
  "plain_row name = mk_row name (lit ''no'') (lit ''https://example.com/x'') (lit ''cat'')
     (lit ''yes'') (lit ''2025-04-04'')"

definition plain_text :: "ustr \<Rightarrow> ustr" where
  "plain_text name = record_text name (lit ''https://example.com/x'') (lit ''cat'')
     (lit ''yes'') (lit ''2025-04-04'')"

definition example_data :: "raw_row list" where
  "example_data = map plain_row [lit ''Bob 1'', lit ''Alice'', lit ''Bob 2'', lit ''bob 3'',
     lit ''BOB 4'', lit ''Bob 5'', lit ''Bob 6'']"

text \<open>
  A row whose Credit cell is \<^verbatim>\<open>None\<close> (a line one cell short of a header that ends with
  Credit), and its formatted record.
\<close>

definition none_credit_row :: raw_row where
  "none_credit_row =
     (mk_row (lit ''Bob 0'') (lit ''no'') (lit ''https://example.com/x'') (lit ''cat'')
        (lit ''yes'') (lit ''2025-04-04'')) (lit ''Credit'' \<mapsto> NoneVal)"

definition none_credit_text :: ustr where
  "none_credit_text = record_text (lit ''Bob 0'') (lit ''https://example.com/x'') (lit ''None'')
     (lit ''yes'') (lit ''2025-04-04'')"

section \<open>Chunking\<close>

lemma paginate_loop_concat:
  "concat (fst (paginate_loop chunk_size chunks current_chunk lines)) @
     snd (paginate_loop chunk_size chunks current_chunk lines) =
   concat chunks @ current_chunk @ joined lines"
  by (induction lines arbitrary: chunks current_chunk) (simp_all add: joined_def)

text \<open>
  C2. For every list of formatted records and every chunk size, the chunks concatenated in
  order are exactly the records joined in input order, each followed by its blank-line
  separator: chunking loses, repeats, cuts and reorders nothing.
\<close>

theorem chunks_concat_joined:
  "concat (paginate_chunks lines chunk_size) = joined lines"
proof -
  obtain chunks current_chunk where
    loop: "paginate_loop chunk_size [] [] lines = (chunks, current_chunk)"
    by (cases "paginate_loop chunk_size [] [] lines")
  from paginate_loop_concat [of chunk_size "[]" "[]" lines] loop
  have "concat chunks @ current_chunk = joined lines"
    by simp
  with loop show ?thesis
    by (auto simp: paginate_chunks_def)
qed

text \<open>
  The sealed chunks and the accumulator are always whole groups of consecutive records,
  each group within the budget or a single oversized record.
\<close>

lemma joined_append: "joined (g @ [line]) = joined g @ line @ nl @ nl"
  by (simp add: joined_def)

lemma joined_single: "joined [line] = line @ nl @ nl"
  by (simp add: joined_def)

lemma joined_Nil: "joined [] = []"
  by (simp add: joined_def)

lemma joined_eq_Nil: "joined g = [] \<longleftrightarrow> g = []"
  by (cases g) (simp_all add: joined_def nl_def)

lemma paginate_loop_groups:
  assumes "list_all (chunk_ok chunk_size) (groups @ [g])"
  shows "\<exists>groups' g'.
           paginate_loop chunk_size (map joined groups) (joined g) lines =
             (map joined groups', joined g') \<and>
           concat groups' @ g' = concat groups @ g @ lines \<and>
           list_all (chunk_ok chunk_size) (groups' @ [g'])"
  using assms
proof (induction lines arbitrary: groups g)
  case Nil
  then show ?case by auto
next
  case (Cons line lines)
  show ?case
  proof (cases "int (length (joined g)) + int (length line) + 2 > chunk_size")
    case True
    have "chunk_ok chunk_size [line]"
      by (auto simp: chunk_ok_def joined_def)
    with Cons.prems have ok: "list_all (chunk_ok chunk_size) ((groups @ [g]) @ [[line]])"
      by simp
    from Cons.IH [OF ok] obtain groups' g' where
      "paginate_loop chunk_size (map joined (groups @ [g])) (joined [line]) lines =
         (map joined groups', joined g')"
      "concat groups' @ g' = concat (groups @ [g]) @ [line] @ lines"
      "list_all (chunk_ok chunk_size) (groups' @ [g'])"
      by blast
    with True show ?thesis
      by (auto simp: joined_single)
  next
    case False
    from False have "chunk_ok chunk_size (g @ [line])"
      by (simp add: chunk_ok_def joined_append nl_def)
    with Cons.prems have ok: "list_all (chunk_ok chunk_size) (groups @ [g @ [line]])"
      by simp
    from Cons.IH [OF ok] obtain groups' g' where
      "paginate_loop chunk_size (map joined groups) (joined (g @ [line])) lines =
         (map joined groups', joined g')"
      "concat groups' @ g' = concat groups @ (g @ [line]) @ lines"
      "list_all (chunk_ok chunk_size) (groups' @ [g'])"
      by blast
    with False show ?thesis
      by (auto simp: joined_append)
  qed
qed

text \<open>
  C6. For every list of formatted records and every chunk size (a size: not negative),
  the records split into consecutive groups, in order, and the chunks are exactly these
  groups, each joined with its separators: no record is cut or shared between two chunks.
  Every chunk is at most \<open>chunk_size\<close> long, except a chunk that is a single record whose
  own length with its separator exceeds \<open>chunk_size\<close>; that record is its own chunk, whole.
\<close>

theorem chunks_whole_records:
  assumes "0 \<le> chunk_size"
  shows "\<exists>groups. concat groups = lines \<and>
           paginate_chunks lines chunk_size = map joined groups \<and>
           (\<forall>g\<in>set groups. int (length (joined g)) \<le> chunk_size \<or>
              (\<exists>line. g = [line] \<and> int (length (line @ nl @ nl)) > chunk_size))"
proof -
  have "list_all (chunk_ok chunk_size) ([] @ [[]])"
    using assms by (simp add: chunk_ok_def joined_def)
  from paginate_loop_groups [OF this, of lines] obtain groups' g' where
    loop: "paginate_loop chunk_size [] [] lines = (map joined groups', joined g')"
    and parts: "concat groups' @ g' = lines"
    and ok: "list_all (chunk_ok chunk_size) (groups' @ [g'])"
    by (auto simp: joined_Nil)
  have shape: "chunk_ok chunk_size g \<Longrightarrow> int (length (joined g)) \<le> chunk_size \<or>
      (\<exists>line. g = [line] \<and> int (length (line @ nl @ nl)) > chunk_size)" for g
    by (auto simp: chunk_ok_def split: list.splits)
  show ?thesis
  proof (cases "g' = []")
    case True
    with loop parts ok shape show ?thesis
      by (intro exI [of _ groups']) (auto simp: paginate_chunks_def joined_Nil list_all_iff)
  next
    case False
    with loop parts ok shape show ?thesis
      by (intro exI [of _ "groups' @ [g']"])
         (auto simp: paginate_chunks_def joined_eq_Nil list_all_iff)
  qed
qed

text \<open>
  At a budget of 6, the records \<open>ab\<close>, \<open>c\<close> and \<open>defghij\<close>: the first fills a chunk, the
  second starts the next, and the third, too long for any chunk, is one of its own.
\<close>

theorem chunks_whole_records_witness:
  "(0::int) \<le> 6 \<and>
   paginate_chunks [lit ''ab'', lit ''c'', lit ''defghij''] 6 =
     [lit ''ab'' @ nl @ nl, lit ''c'' @ nl @ nl, lit ''defghij'' @ nl @ nl] \<and>
   (\<exists>groups. concat groups = [lit ''ab'', lit ''c'', lit ''defghij''] \<and>
      paginate_chunks [lit ''ab'', lit ''c'', lit ''defghij''] 6 = map joined groups \<and>
      (\<forall>g\<in>set groups. int (length (joined g)) \<le> 6 \<or>
         (\<exists>line. g = [line] \<and> int (length (line @ nl @ nl)) > 6)))"
  using chunks_whole_records [of 6 "[lit ''ab'', lit ''c'', lit ''defghij'']"]
  by (simp add: paginate_chunks_def lit_def nl_def)

lemma paginate_loop_keeps_chunks:
  "\<exists>more. fst (paginate_loop chunk_size chunks current_chunk lines) = chunks @ more"
proof (induction lines arbitrary: chunks current_chunk)
  case Nil
  show ?case by simp
next
  case (Cons line lines)
  from Cons.IH [of "chunks @ [current_chunk]" "line @ nl @ nl"]
       Cons.IH [of chunks "current_chunk @ line @ nl @ nl"]
  show ?case by auto
qed

text \<open>
  C10. When a record arrives whose length plus the 2-character separator exceeds
  \<open>chunk_size\<close> and the accumulator is empty, the empty accumulator is sealed as a chunk
  before the record is placed. The accumulator is empty at the first record: for every
  non-empty list of records whose first record is that long, the first chunk is the
  empty string and the second is exactly that record with its separator.
\<close>

theorem empty_chunk_before_oversized_first:
  assumes "int (length line) + 2 > chunk_size"
  shows "paginate_loop chunk_size chunks [] (line # lines) =
           paginate_loop chunk_size (chunks @ [[]]) (line @ nl @ nl) lines \<and>
         take 2 (paginate_chunks (line # lines) chunk_size) = [[], line @ nl @ nl]"
proof
  from assms show "paginate_loop chunk_size chunks [] (line # lines) =
      paginate_loop chunk_size (chunks @ [[]]) (line @ nl @ nl) lines"
    by simp
next
  show "take 2 (paginate_chunks (line # lines) chunk_size) = [[], line @ nl @ nl]"
  proof (cases lines)
    case Nil
    with assms show ?thesis
      by (simp add: paginate_chunks_def nl_def)
  next
    case (Cons line2 rest)
    obtain more where
      more: "fst (paginate_loop chunk_size [[], line @ nl @ nl] (line2 @ nl @ nl) rest) =
               [[], line @ nl @ nl] @ more"
      using paginate_loop_keeps_chunks by blast
    from assms have "int (length (line @ nl @ nl)) + int (length line2) + 2 > chunk_size"
      by (simp add: nl_def)
    with assms Cons have "paginate_loop chunk_size [] [] (line # lines) =
        paginate_loop chunk_size [[], line @ nl @ nl] (line2 @ nl @ nl) rest"
      by simp
    with more show ?thesis
      by (cases "paginate_loop chunk_size [[], line @ nl @ nl] (line2 @ nl @ nl) rest")
         (simp add: paginate_chunks_def)
  qed
qed

theorem empty_chunk_before_oversized_first_witness:
  "int (length (lit ''abcdefgh'')) + 2 > 6 \<and>
   take 2 (paginate_chunks [lit ''abcdefgh'', lit ''x'', lit ''y''] 6) =
     [[], lit ''abcdefgh'' @ nl @ nl] \<and>
   paginate_chunks [lit ''abcdefgh'', lit ''x'', lit ''y''] 6 =
     [[], lit ''abcdefgh'' @ nl @ nl, lit ''x'' @ nl @ nl @ lit ''y'' @ nl @ nl]"
  using empty_chunk_before_oversized_first [of 6 "lit ''abcdefgh''" "[]" "[lit ''x'', lit ''y'']"]
  by (simp add: paginate_chunks_def lit_def nl_def)


section \<open>The normalizer\<close>

text \<open>What a successful \<^verbatim>\<open>parse_csv_row\<close> read and wrote.\<close>

lemma parse_csv_row_InrD:
  assumes "parse_csv_row lower row = Inr formatted"
  shows "\<exists>artist_name best url credit links_work updated.
           row (lit ''Artist Name'') = Some artist_name \<and>
           row (lit ''Best'') = Some (Str best) \<and>
           row (lit ''URL'') = Some (Str url) \<and>
           row (lit ''Credit'') = Some credit \<and>
           row (lit ''Links Work'') = Some links_work \<and>
           row (lit ''Updated'') = Some updated \<and>
           formatted = record_text (display_name lower (format_cell artist_name) best)
                    (rewrite_url url) (format_cell credit) (format_cell links_work)
                    (format_cell updated)"
  using assms
  by (auto simp: parse_csv_row_def and_then_def getitem_def str_or_def
           split: option.splits cell.splits)

lemma mk_row_parse:
  "parse_csv_row lower (mk_row artist best url credit links updated) =
     Inr (record_text (display_name lower artist best) (rewrite_url url) credit links updated)"
  by (simp add: parse_csv_row_def mk_row_def and_then_def getitem_def str_or_def lit_def)

lemma example_sheet_id_ok: "length example_sheet_id = 44 \<and> list_all id_char example_sheet_id"
  by (simp add: example_sheet_id_def lit_def id_char_def)

subsection \<open>The URL rewrite\<close>

lemma match_prefixed:
  assumes "length sheet_id = 44" and "list_all id_char sheet_id"
  shows "GOOGLE_SHEETS_RE_match (sheets_prefix @ sheet_id @ rest) = Some sheet_id"
  using assms by (simp add: GOOGLE_SHEETS_RE_match_def Let_def)

lemma match_SomeD:
  assumes "GOOGLE_SHEETS_RE_match url = Some sheet_id"
  shows "url = sheets_prefix @ sheet_id @ drop (length sheets_prefix + 44) url \<and>
         length sheet_id = 44 \<and> list_all id_char sheet_id"
proof -
  from assms have p: "take (length sheets_prefix) url = sheets_prefix"
    and s: "sheet_id = take 44 (drop (length sheets_prefix) url)"
    and l: "length sheet_id = 44" and c: "list_all id_char sheet_id"
    by (auto simp: GOOGLE_SHEETS_RE_match_def Let_def split: if_splits)
  have "url = take (length sheets_prefix) url @ take 44 (drop (length sheets_prefix) url) @
      drop 44 (drop (length sheets_prefix) url)"
    by (simp del: drop_drop)
  with p s have "url = sheets_prefix @ sheet_id @ drop (length sheets_prefix + 44) url"
    by (simp add: add.commute)
  with l c show ?thesis by simp
qed

text \<open>
  C4. A URL that starts with \<^verbatim>\<open>https://docs.google.com/spreadsheets/d/\<close> followed by 44
  characters of \<^verbatim>\<open>[A-Za-z0-9_-]\<close> is rewritten to \<^verbatim>\<open>https://trackerhub.cx/sh/\<close> and
  these 44 characters, whatever follows them; every URL that does not start so is
  returned as it is. The formatted record of a row carries the rewritten URL of its
  URL cell.
\<close>

theorem rewrite_url_prefix_match:
  "(length sheet_id = 44 \<and> list_all id_char sheet_id \<longrightarrow>
      rewrite_url (sheets_prefix @ sheet_id @ rest) = trackerhub_prefix @ sheet_id) \<and>
   ((\<nexists>sid tail. url = sheets_prefix @ sid @ tail \<and> length sid = 44 \<and> list_all id_char sid) \<longrightarrow>
      rewrite_url url = url) \<and>
   (row (lit ''URL'') = Some (Str url) \<and> parse_csv_row lower row = Inr formatted \<longrightarrow>
      (\<exists>name credit links_work updated.
         formatted = record_text name (rewrite_url url) credit links_work updated))"
proof (intro conjI impI)
  assume "length sheet_id = 44 \<and> list_all id_char sheet_id"
  then show "rewrite_url (sheets_prefix @ sheet_id @ rest) = trackerhub_prefix @ sheet_id"
    by (simp add: rewrite_url_def match_prefixed)
next
  assume none: "\<nexists>sid tail. url = sheets_prefix @ sid @ tail \<and> length sid = 44 \<and>
    list_all id_char sid"
  have "GOOGLE_SHEETS_RE_match url = None"
  proof (cases "GOOGLE_SHEETS_RE_match url")
    case None
    then show ?thesis .
  next
    case (Some sheet_id)
    from match_SomeD [OF this] none show ?thesis by blast
  qed
  then show "rewrite_url url = url"
    by (simp add: rewrite_url_def)
next
  assume "row (lit ''URL'') = Some (Str url) \<and> parse_csv_row lower row = Inr formatted"
  with parse_csv_row_InrD [of lower row formatted]
  show "\<exists>name credit links_work updated.
      formatted = record_text name (rewrite_url url) credit links_work updated"
    by auto
qed


theorem rewrite_url_prefix_match_witness:
  "length example_sheet_id = 44 \<and> list_all id_char example_sheet_id \<and>
   rewrite_url (sheets_prefix @ example_sheet_id @ lit ''/edit#gid=0'') =
     trackerhub_prefix @ example_sheet_id \<and>
   rewrite_url (lit ''https://example.com/alice'') = lit ''https://example.com/alice'' \<and>
   parse_csv_row ascii_lower bob_row =
     Inr (record_text (lit ''Bob'') (trackerhub_prefix @ example_sheet_id)
            (lit ''ben'') (lit ''no'') (lit ''2025-02-02''))"
proof -
  have no_match: "\<nexists>sid tail. lit ''https://example.com/alice'' = sheets_prefix @ sid @ tail \<and>
      length sid = 44 \<and> list_all id_char sid"
  proof
    assume "\<exists>sid tail. lit ''https://example.com/alice'' = sheets_prefix @ sid @ tail \<and>
      length sid = 44 \<and> list_all id_char sid"
    then obtain sid tail where "lit ''https://example.com/alice'' = sheets_prefix @ sid @ tail"
      by blast
    then have "take 9 (lit ''https://example.com/alice'') = take 9 (sheets_prefix @ sid @ tail)"
      by simp
    then show False
      by (simp add: lit_def sheets_prefix_def)
  qed
  from rewrite_url_prefix_match [of example_sheet_id "lit ''/edit#gid=0''"
      "lit ''https://example.com/alice''"] example_sheet_id_ok no_match
  have rewritten: "rewrite_url (sheets_prefix @ example_sheet_id @ lit ''/edit#gid=0'') =
      trackerhub_prefix @ example_sheet_id"
    and kept: "rewrite_url (lit ''https://example.com/alice'') = lit ''https://example.com/alice''"
    by blast+
  have "ascii_lower (strip (lit ''no'')) \<noteq> lit ''yes''"
    by (simp add: strip_def is_space_def lit_def ascii_lower_def)
  with rewritten have "parse_csv_row ascii_lower bob_row =
      Inr (record_text (lit ''Bob'') (trackerhub_prefix @ example_sheet_id)
             (lit ''ben'') (lit ''no'') (lit ''2025-02-02''))"
    by (simp add: bob_row_def mk_row_parse display_name_def)
  with example_sheet_id_ok rewritten kept show ?thesis
    by simp
qed

subsection \<open>The star\<close>

lemma lowers_asciiD:
  "lowers_ascii lower \<Longrightarrow> list_all (\<lambda>c. c < 128) s \<Longrightarrow> lower s = ascii_lower s"
  by (simp add: lowers_ascii_def)

lemma star_wrap_neq: "star @ name @ star \<noteq> name"
proof
  assume "star @ name @ star = name"
  then have "length (star @ name @ star) = length name" by simp
  then show False by (simp add: star_def)
qed

text \<open>
  C5. The name is wrapped in the star on both sides if and only if the Best cell, stripped
  of whitespace and lowercased, is \<open>yes\<close>: \<open>YES\<close>, \<open>Yes\<close> and \<open>yes\<close> between blanks
  give the starred name; \<open>no\<close>, the empty string and \<open>maybe\<close> leave the name as it
  is. The formatted record of a row carries this name.
\<close>

theorem display_name_iff_best_yes:
  assumes "lowers_ascii lower"
  shows "((display_name lower name best = star @ name @ star) \<longleftrightarrow>
            (lower (strip best) = lit ''yes'')) \<and>
         ((display_name lower name best = name) \<longleftrightarrow> (lower (strip best) \<noteq> lit ''yes'')) \<and>
         display_name lower name (lit ''YES'') = star @ name @ star \<and>
         display_name lower name (lit ''Yes'') = star @ name @ star \<and>
         display_name lower name (lit '' yes '') = star @ name @ star \<and>
         display_name lower name (lit ''no'') = name \<and>
         display_name lower name [] = name \<and>
         display_name lower name (lit ''maybe'') = name \<and>
         (row (lit ''Artist Name'') = Some artist \<and> row (lit ''Best'') = Some (Str best) \<and>
          parse_csv_row lower row = Inr formatted \<longrightarrow>
            (\<exists>url credit links_work updated.
               formatted = record_text (display_name lower (format_cell artist) best) url
                             credit links_work updated))"
proof -
  have iff: "((display_name lower name best = star @ name @ star) \<longleftrightarrow>
        (lower (strip best) = lit ''yes'')) \<and>
      ((display_name lower name best = name) \<longleftrightarrow> (lower (strip best) \<noteq> lit ''yes''))"
    using star_wrap_neq [of name] by (auto simp: display_name_def)
  have low: "lower (strip s) = ascii_lower (strip s)" if "list_all (\<lambda>c. c < 128) (strip s)" for s
    using assms that by (rule lowers_asciiD)
  have yes1: "lower (strip (lit ''YES'')) = lit ''yes''"
    by (subst low) (simp_all add: strip_def is_space_def lit_def ascii_lower_def)
  have yes2: "lower (strip (lit ''Yes'')) = lit ''yes''"
    by (subst low) (simp_all add: strip_def is_space_def lit_def ascii_lower_def)
  have yes3: "lower (strip (lit '' yes '')) = lit ''yes''"
    by (subst low) (simp_all add: strip_def is_space_def lit_def ascii_lower_def)
  have no1: "lower (strip (lit ''no'')) \<noteq> lit ''yes''"
    by (subst low) (simp_all add: strip_def is_space_def lit_def ascii_lower_def)
  have no2: "lower (strip []) \<noteq> lit ''yes''"
    by (subst low) (simp_all add: strip_def is_space_def lit_def ascii_lower_def)
  have no3: "lower (strip (lit ''maybe'')) \<noteq> lit ''yes''"
    by (subst low) (simp_all add: strip_def is_space_def lit_def ascii_lower_def)
  have examples: "display_name lower name (lit ''YES'') = star @ name @ star \<and>
         display_name lower name (lit ''Yes'') = star @ name @ star \<and>
         display_name lower name (lit '' yes '') = star @ name @ star \<and>
         display_name lower name (lit ''no'') = name \<and>
         display_name lower name [] = name \<and>
         display_name lower name (lit ''maybe'') = name"
    using yes1 yes2 yes3 no1 no2 no3 by (simp add: display_name_def)
  have row: "row (lit ''Artist Name'') = Some artist \<and> row (lit ''Best'') = Some (Str best) \<and>
          parse_csv_row lower row = Inr formatted \<longrightarrow>
            (\<exists>url credit links_work updated.
               formatted = record_text (display_name lower (format_cell artist) best) url
                             credit links_work updated)"
    using parse_csv_row_InrD [of lower row formatted] by fastforce
  from iff examples row show ?thesis
    by blast
qed

theorem display_name_iff_best_yes_witness:
  "lowers_ascii ascii_lower \<and>
   display_name ascii_lower (lit ''Alice'') (lit '' Yes '') = star @ lit ''Alice'' @ star \<and>
   display_name ascii_lower (lit ''Bob'') (lit ''no'') = lit ''Bob'' \<and>
   parse_csv_row ascii_lower alice_row =
     Inr (record_text (star @ lit ''Alice'' @ star) (lit ''https://example.com/alice'')
            (lit ''ann'') (lit ''yes'') (lit ''2025-01-01''))"
proof -
  have la: "lowers_ascii ascii_lower"
    by (simp add: lowers_ascii_def)
  have yes: "ascii_lower (strip (lit '' Yes '')) = lit ''yes''"
    by (simp add: strip_def is_space_def lit_def ascii_lower_def)
  from display_name_iff_best_yes [OF la, of "lit ''Alice''" "lit '' Yes ''"] yes
  have alice: "display_name ascii_lower (lit ''Alice'') (lit '' Yes '') =
      star @ lit ''Alice'' @ star"
    by blast
  from display_name_iff_best_yes [OF la, of "lit ''Bob''"]
  have bob: "display_name ascii_lower (lit ''Bob'') (lit ''no'') = lit ''Bob''"
    by blast
  have "rewrite_url (lit ''https://example.com/alice'') = lit ''https://example.com/alice''"
    by (simp add: rewrite_url_def GOOGLE_SHEETS_RE_match_def sheets_prefix_def lit_def)
  with alice have "parse_csv_row ascii_lower alice_row =
      Inr (record_text (star @ lit ''Alice'' @ star) (lit ''https://example.com/alice'')
             (lit ''ann'') (lit ''yes'') (lit ''2025-01-01''))"
    by (simp add: alice_row_def mk_row_parse)
  with la alice bob show ?thesis
    by simp
qed

section \<open>The fetch\<close>

text \<open>
  C8, as the source has it. A response whose status is not 200 makes the fetch fail with
  the exception that carries that status, and no other response does; a response with
  status 200 gives what the reader makes of its text: the rows, or the reader's own
  error.
\<close>

theorem fetch_csv_status:
  "(fetch_csv reader (Reply status body) = Inl (HttpError s) \<longleftrightarrow> status \<noteq> 200 \<and> s = status) \<and>
   (status = 200 \<and> reader body = Inr rows \<longrightarrow> fetch_csv reader (Reply status body) = Inr rows) \<and>
   (status = 200 \<and> reader body = Inl msg \<longrightarrow>
      fetch_csv reader (Reply status body) = Inl (CsvError msg))"
  by (auto simp: fetch_csv_def split: sum.splits)

theorem fetch_csv_status_witness:
  "fetch_csv (reads_as [alice_row, bob_row]) (Reply 200 []) = Inr [alice_row, bob_row] \<and>
   fetch_csv (reads_as [alice_row, bob_row]) (Reply 500 []) = Inl (HttpError 500) \<and>
   fetch_csv (reads_as [alice_row, bob_row]) (Reply 204 []) = Inl (HttpError 204)"
proof -
  have "reads_as [alice_row, bob_row] [] = Inr [alice_row, bob_row]"
    by (simp add: reads_as_def)
  with fetch_csv_status [of "reads_as [alice_row, bob_row]" 200 "[]" 200 "[alice_row, bob_row]"]
    fetch_csv_status [of "reads_as [alice_row, bob_row]" 500 "[]" 500]
    fetch_csv_status [of "reads_as [alice_row, bob_row]" 204 "[]" 204]
  show ?thesis by simp
qed

text \<open>
  C8 as the specification words it fails: 204 is a success status, and the fetch fails
  on it.
\<close>

theorem fetch_fails_on_success_status_204:
  "http_success 204 \<and>
   fetch_csv (reads_as [alice_row]) (Reply 204 []) = Inl (HttpError 204)"
  by (simp add: http_success_def fetch_csv_def)

section \<open>The commands\<close>

text \<open>
  C9. A request from any guild but the allowed one (or from none) gets the fixed
  ephemeral message and nothing else: no request is made, whatever the remote source
  would have answered, and the dataset is not touched.
\<close>

theorem unauthorized_rejected_before_fetch:
  assumes "guild_id \<noteq> Some ALLOWED_GUILD_ID"
  shows "search lower reader net guild_id artist =
           \<lparr>trace = [SendEphemeral unauthorized_message], escaped = None\<rparr> \<and>
         list_trackers lower reader net guild_id =
           \<lparr>trace = [SendEphemeral unauthorized_message], escaped = None\<rparr> \<and>
         HttpGet CSV_URL \<notin> set (trace (search lower reader net guild_id artist)) \<and>
         HttpGet CSV_URL \<notin> set (trace (list_trackers lower reader net guild_id))"
  using assms by (simp add: search_def list_trackers_def)

theorem unauthorized_rejected_before_fetch_witness:
  "Some 42 \<noteq> Some ALLOWED_GUILD_ID \<and>
   search ascii_lower (reads_as [alice_row, bob_row]) (Reply 200 []) (Some 42) (lit ''ali'') =
     \<lparr>trace = [SendEphemeral unauthorized_message], escaped = None\<rparr> \<and>
   list_trackers ascii_lower (reads_as [alice_row, bob_row]) (Reply 200 []) None =
     \<lparr>trace = [SendEphemeral unauthorized_message], escaped = None\<rparr>"
proof -
  have other: "Some 42 \<noteq> Some ALLOWED_GUILD_ID"
    by (simp add: ALLOWED_GUILD_ID_def)
  have dm: "None \<noteq> Some ALLOWED_GUILD_ID"
    by simp
  from unauthorized_rejected_before_fetch [OF other, of ascii_lower
      "reads_as [alice_row, bob_row]" "Reply 200 []" "lit ''ali''"]
    unauthorized_rejected_before_fetch [OF dm, of ascii_lower
      "reads_as [alice_row, bob_row]" "Reply 200 []"]
    other
  show ?thesis by simp
qed

lemma decimal_500: "decimal 500 = lit ''500''"
  by (simp add: decimal.simps lit_def)

text \<open>
  C7. When the fetch fails, each command hands exactly one text to \<^verbatim>\<open>followup.send\<close>,
  the message of the failure, and no exception leaves the command; for a response with
  a status other than 200 the message names that status.
\<close>

theorem fetch_failure_one_message:
  assumes "fetch_csv reader net = Inl e"
  shows "search lower reader net (Some ALLOWED_GUILD_ID) artist =
           \<lparr>trace = [Defer, HttpGet CSV_URL, FollowupSend (str_of_exception e)],
            escaped = None\<rparr> \<and>
         list_trackers lower reader net (Some ALLOWED_GUILD_ID) =
           \<lparr>trace = [Defer, HttpGet CSV_URL, FollowupSend (str_of_exception e)],
            escaped = None\<rparr> \<and>
         sent (trace (search lower reader net (Some ALLOWED_GUILD_ID) artist)) =
           [str_of_exception e] \<and>
         sent (trace (list_trackers lower reader net (Some ALLOWED_GUILD_ID))) =
           [str_of_exception e] \<and>
         (\<forall>status body. net = Reply status body \<and> status \<noteq> 200 \<longrightarrow>
            str_of_exception e = lit ''Failed to fetch CSV: HTTP '' @ decimal status)"
  using assms by (auto simp: search_def list_trackers_def fetch_csv_def)

theorem fetch_failure_one_message_witness:
  "fetch_csv (reads_as [alice_row]) (Reply 500 []) = Inl (HttpError 500) \<and>
   search ascii_lower (reads_as [alice_row]) (Reply 500 []) (Some ALLOWED_GUILD_ID) (lit ''ali'') =
     \<lparr>trace = [Defer, HttpGet CSV_URL, FollowupSend (lit ''Failed to fetch CSV: HTTP 500'')],
      escaped = None\<rparr> \<and>
   sent (trace (list_trackers ascii_lower (reads_as [alice_row]) (Reply 500 [])
     (Some ALLOWED_GUILD_ID))) = [lit ''Failed to fetch CSV: HTTP 500'']"
proof -
  have failed: "fetch_csv (reads_as [alice_row]) (Reply 500 []) = Inl (HttpError 500)"
    by (simp add: fetch_csv_def)
  have msg: "str_of_exception (HttpError 500) = lit ''Failed to fetch CSV: HTTP 500''"
    by (simp add: decimal_500 lit_def)
  from fetch_failure_one_message [OF failed, of ascii_lower "lit ''ali''"] failed msg
  show ?thesis by simp
qed

subsection \<open>Rows that miss a field\<close>

lemma parse_csv_row_raises_iff:
  "(\<exists>e. parse_csv_row lower row = Inl e) \<longleftrightarrow> unreadable row"
  by (auto simp: unreadable_def required_keys_def parse_csv_row_def and_then_def getitem_def
        str_or_def split: option.splits cell.splits)

lemma list_results_raises:
  assumes "row \<in> set data" and "parse_csv_row lower row = Inl e"
  shows "\<exists>e'. list_results lower data = Inl e'"
  using assms
proof (induction data)
  case Nil
  then show ?case by simp
next
  case (Cons r data)
  show ?case
  proof (cases "parse_csv_row lower r")
    case (Inl e')
    then show ?thesis by (simp add: and_then_def)
  next
    case (Inr line)
    with Cons.prems have "row \<in> set data" by auto
    from Cons.IH [OF this Cons.prems(2)] Inr show ?thesis
      by (auto simp: and_then_def)
  qed
qed

lemma matching_lines_raises:
  assumes "row \<in> set data"
    and "\<not> is_text (row (lit ''Artist Name'')) \<or>
         (name_matches lower artist row \<and> (\<exists>e. parse_csv_row lower row = Inl e))"
  shows "\<exists>e'. matching_lines lower (lower artist) data = Inl e'"
  using assms(1)
proof (induction data)
  case Nil
  then show ?case by simp
next
  case (Cons r data)
  show ?case
  proof (cases "matching_lines lower (lower artist) data")
    case (Inl e')
    then show ?thesis
      by (auto simp: and_then_def getitem_def str_or_def split: option.splits cell.splits sum.splits)
  next
    case (Inr lines)
    with Cons have "r = row" by auto
    with assms(2) show ?thesis
      by (auto simp: and_then_def getitem_def str_or_def name_matches_def
               split: option.splits cell.splits sum.splits)
  qed
qed

text \<open>
  C3, as the source has it. When a row of the fetched dataset misses a field that the
  normalizer needs (a column is absent, or the cell of Best or URL is \<^verbatim>\<open>None\<close>),
  \<^verbatim>\<open>list_trackers\<close> sends nothing after the fetch and the row's exception leaves the
  command; \<^verbatim>\<open>search\<close> does the same when the row's name is absent or \<^verbatim>\<open>None\<close>, or the
  row misses such a field and its name matches the query. No row is skipped.
\<close>

theorem unreadable_row_aborts_listing:
  assumes "fetch_csv reader net = Inr data" and "row \<in> set data"
  shows "(unreadable row \<longrightarrow>
            (\<exists>e. list_trackers lower reader net (Some ALLOWED_GUILD_ID) =
               \<lparr>trace = [Defer, HttpGet CSV_URL], escaped = Some e\<rparr>)) \<and>
         (\<not> is_text (row (lit ''Artist Name'')) \<or>
          (name_matches lower artist row \<and> unreadable row) \<longrightarrow>
            (\<exists>e. search lower reader net (Some ALLOWED_GUILD_ID) artist =
               \<lparr>trace = [Defer, HttpGet CSV_URL], escaped = Some e\<rparr>))"
proof (intro conjI impI)
  assume "unreadable row"
  then obtain e where "parse_csv_row lower row = Inl e"
    using parse_csv_row_raises_iff [of lower row] by blast
  from list_results_raises [OF assms(2) this] obtain e' where "list_results lower data = Inl e'"
    by blast
  with assms(1) show "\<exists>e. list_trackers lower reader net (Some ALLOWED_GUILD_ID) =
      \<lparr>trace = [Defer, HttpGet CSV_URL], escaped = Some e\<rparr>"
    by (simp add: list_trackers_def)
next
  assume "\<not> is_text (row (lit ''Artist Name'')) \<or> (name_matches lower artist row \<and> unreadable row)"
  then have "\<not> is_text (row (lit ''Artist Name'')) \<or>
      (name_matches lower artist row \<and> (\<exists>e. parse_csv_row lower row = Inl e))"
    using parse_csv_row_raises_iff [of lower row] by blast
  from matching_lines_raises [OF assms(2) this] obtain e' where
    "matching_lines lower (lower artist) data = Inl e'"
    by blast
  with assms(1) show "\<exists>e. search lower reader net (Some ALLOWED_GUILD_ID) artist =
      \<lparr>trace = [Defer, HttpGet CSV_URL], escaped = Some e\<rparr>"
    by (simp add: search_def search_results_def and_then_def)
qed

lemma mk_row_name: "mk_row artist best url credit links updated (lit ''Artist Name'') = Some (Str artist)"
  by (simp add: mk_row_def lit_def)

lemma not_yes: "ascii_lower (strip (lit ''no'')) \<noteq> lit ''yes''"
  by (simp add: strip_def is_space_def lit_def ascii_lower_def)

lemma bob_row_parse: "parse_csv_row ascii_lower bob_row = Inr bob_text"
  using not_yes example_sheet_id_ok
  by (simp add: bob_text_def bob_row_def mk_row_parse display_name_def rewrite_url_def
        match_prefixed)

lemma bob_matches: "sublist (ascii_lower (lit ''bob'')) (ascii_lower (lit ''Bob''))"
  by (simp add: ascii_lower_def lit_def sublist_code(3))

lemma bobby_matches: "sublist (ascii_lower (lit ''bob'')) (ascii_lower (lit ''Bobby''))"
  by (simp add: ascii_lower_def lit_def sublist_code(3))

lemma one_short_record: "length line + 2 \<le> 1800 \<Longrightarrow> paginate_chunks [line] 1800 = [line @ nl @ nl]"
  by (simp add: paginate_chunks_def nl_def)

lemma bob_text_length: "length bob_text = 125"
  by (simp add: bob_text_def record_text_def lit_def trackerhub_prefix_def example_sheet_id_def nl_def)

lemma bobby_name: "bobby_short_row (lit ''Artist Name'') = Some (Str (lit ''Bobby''))"
  by (simp add: bobby_short_row_def lit_def)

lemma bobby_parse: "parse_csv_row ascii_lower bobby_short_row = Inl AttributeError"
  by (simp add: bobby_short_row_def parse_csv_row_def and_then_def getitem_def str_or_def lit_def)

theorem unreadable_row_aborts_listing_witness:
  "fetch_csv (reads_as [bob_row, bobby_short_row]) (Reply 200 []) =
     Inr [bob_row, bobby_short_row] \<and>
   unreadable bobby_short_row \<and>
   name_matches ascii_lower (lit ''bob'') bobby_short_row \<and>
   (\<exists>e. list_trackers ascii_lower (reads_as [bob_row, bobby_short_row]) (Reply 200 [])
      (Some ALLOWED_GUILD_ID) = \<lparr>trace = [Defer, HttpGet CSV_URL], escaped = Some e\<rparr>) \<and>
   (\<exists>e. search ascii_lower (reads_as [bob_row, bobby_short_row]) (Reply 200 [])
      (Some ALLOWED_GUILD_ID) (lit ''bob'') =
        \<lparr>trace = [Defer, HttpGet CSV_URL], escaped = Some e\<rparr>)"
proof -
  have fetched: "fetch_csv (reads_as [bob_row, bobby_short_row]) (Reply 200 []) =
      Inr [bob_row, bobby_short_row]"
    by (simp add: fetch_csv_def reads_as_def)
  have member: "bobby_short_row \<in> set [bob_row, bobby_short_row]"
    by simp
  have missing: "unreadable bobby_short_row"
    by (simp add: unreadable_def bobby_short_row_def lit_def)
  have matches: "name_matches ascii_lower (lit ''bob'') bobby_short_row"
    using bobby_matches by (simp add: name_matches_def bobby_name)
  from unreadable_row_aborts_listing [OF fetched member, of ascii_lower "lit ''bob''"]
    fetched missing matches
  show ?thesis by blast
qed

text \<open>
  C3 as the specification words it fails: with Bob's row and Bobby's short one, neither
  command delivers Bob's record, which the listing of Bob's row alone delivers.
\<close>

theorem short_row_aborts_listing:
  "list_trackers ascii_lower (reads_as [bob_row, bobby_short_row]) (Reply 200 [])
     (Some ALLOWED_GUILD_ID) =
     \<lparr>trace = [Defer, HttpGet CSV_URL], escaped = Some AttributeError\<rparr> \<and>
   search ascii_lower (reads_as [bob_row, bobby_short_row]) (Reply 200 [])
     (Some ALLOWED_GUILD_ID) (lit ''bob'') =
     \<lparr>trace = [Defer, HttpGet CSV_URL], escaped = Some AttributeError\<rparr> \<and>
   list_trackers ascii_lower (reads_as [bob_row]) (Reply 200 []) (Some ALLOWED_GUILD_ID) =
     \<lparr>trace = [Defer, HttpGet CSV_URL, FollowupSend (bob_text @ nl @ nl)], escaped = None\<rparr>"
proof -
  have rows: "fetch_csv (reads_as rows) (Reply 200 []) = Inr rows" for rows
    by (simp add: fetch_csv_def reads_as_def)
  have l2: "list_results ascii_lower [bob_row, bobby_short_row] = Inl AttributeError"
    by (simp add: bob_row_parse bobby_parse and_then_def)
  have s2: "search_results ascii_lower (lit ''bob'') [bob_row, bobby_short_row] =
      Inl AttributeError"
    using bob_matches bobby_matches
    by (simp add: search_results_def and_then_def getitem_def str_or_def bobby_name bob_row_def
          mk_row_name bob_row_parse [unfolded bob_row_def] bobby_parse)
  have l1: "list_results ascii_lower [bob_row] = Inr [bob_text]"
    by (simp add: bob_row_parse and_then_def)
  have "paginate_chunks [bob_text] 1800 = [bob_text @ nl @ nl]"
    by (rule one_short_record) (simp add: bob_text_length)
  with rows l2 s2 l1 show ?thesis
    by (simp add: list_trackers_def search_def send_paginated_response_def)
qed

subsection \<open>The search\<close>

lemma same_letter_iff:
  "same_letter a b \<longleftrightarrow>
     (if 65 \<le> a \<and> a \<le> 90 then a + 32 else a) = (if 65 \<le> b \<and> b \<le> 90 then b + 32 else b)"
  by (auto simp: same_letter_def is_upper_def)

lemma prefix_ascii_lower:
  "prefix (ascii_lower query) (ascii_lower name) \<longleftrightarrow> starts_ignoring_case query name"
proof (induction query name rule: starts_ignoring_case.induct)
  case (1 name)
  show ?case by (simp add: ascii_lower_def)
next
  case (2 a query)
  show ?case by (simp add: ascii_lower_def)
next
  case (3 a query b name)
  then show ?case
    by (simp add: ascii_lower_def same_letter_iff)
qed

lemma sublist_ascii_lower:
  "sublist (ascii_lower query) (ascii_lower name) \<longleftrightarrow> contains_ignoring_case query name"
proof (induction name)
  case Nil
  show ?case by (simp add: ascii_lower_def)
next
  case (Cons b name)
  show ?case
  proof (cases query)
    case Nil
    then show ?thesis by (simp add: ascii_lower_def)
  next
    case (Cons a rest)
    have "sublist (ascii_lower (a # rest)) (ascii_lower (b # name)) \<longleftrightarrow>
        prefix (ascii_lower (a # rest)) (ascii_lower (b # name)) \<or>
        sublist (ascii_lower (a # rest)) (ascii_lower name)"
      by (simp add: ascii_lower_def sublist_code(3))
    with Cons Cons.IH show ?thesis
      by (simp add: prefix_ascii_lower)
  qed
qed

lemma matching_lines_exact:
  assumes "\<not> list_ex (raises_in_search lower artist) data"
  shows "\<exists>lines. matching_lines lower (lower artist) data = Inr lines \<and>
           map Inr lines = map (parse_csv_row lower) (filter (name_matches lower artist) data)"
  using assms
proof (induction data)
  case Nil
  show ?case by simp
next
  case (Cons row data)
  then obtain lines where
    rest: "matching_lines lower (lower artist) data = Inr lines"
      "map Inr lines = map (parse_csv_row lower) (filter (name_matches lower artist) data)"
    by auto
  from Cons.prems have named: "is_text (row (lit ''Artist Name''))"
    and readable: "name_matches lower artist row \<Longrightarrow> \<not> unreadable row"
    by (auto simp: raises_in_search_def)
  from named obtain n where name: "row (lit ''Artist Name'') = Some (Str n)"
    by (auto elim: is_text.elims)
  then have matches: "name_matches lower artist row \<longleftrightarrow> sublist (lower artist) (lower n)"
    by (simp add: name_matches_def)
  show ?case
  proof (cases "sublist (lower artist) (lower n)")
    case True
    with matches readable have "\<not> (\<exists>e. parse_csv_row lower row = Inl e)"
      by (simp add: parse_csv_row_raises_iff)
    then obtain line where "parse_csv_row lower row = Inr line"
      by (cases "parse_csv_row lower row") auto
    with True rest name matches show ?thesis
      by (simp add: and_then_def getitem_def str_or_def)
  next
    case False
    with rest name matches show ?thesis
      by (simp add: and_then_def getitem_def str_or_def)
  qed
qed

text \<open>
  C1, as the source has it. For every dataset and every query: when a row's name is
  absent or \<^verbatim>\<open>None\<close>, or a row whose name matches misses a field the normalizer needs
  (wherever it stands, also after the fifth match), the search raises and returns
  nothing. On every other dataset it returns the formatted records of exactly the first
  five rows (all of them when there are fewer) whose raw name, lowercased, contains the
  lowercased query: every such row matches, none of the first five matches is left out,
  the result has at most five records, and the rows keep the order they have in the
  dataset. For a query and a name of ASCII code points this test is containment without
  regard to case.
\<close>

theorem search_results_exact:
  "(list_ex (raises_in_search lower artist) data \<longrightarrow>
      (\<exists>e. search_results lower artist data = Inl e)) \<and>
   (\<not> list_ex (raises_in_search lower artist) data \<longrightarrow>
      (\<exists>rows results.
         search_results lower artist data = Inr results \<and>
         rows = take 5 (filter (name_matches lower artist) data) \<and>
         map Inr results = map (parse_csv_row lower) rows \<and>
         list_all (name_matches lower artist) rows \<and>
         length results \<le> 5 \<and>
         subseq rows data)) \<and>
   (lowers_ascii lower \<and> list_all (\<lambda>c. c < 128) artist \<and> list_all (\<lambda>c. c < 128) n \<and>
    row (lit ''Artist Name'') = Some (Str n) \<longrightarrow>
      (name_matches lower artist row \<longleftrightarrow> contains_ignoring_case artist n))"
proof (intro conjI impI)
  assume "list_ex (raises_in_search lower artist) data"
  then obtain row where member: "row \<in> set data" and "raises_in_search lower artist row"
    by (auto simp: list_ex_iff)
  then have "\<not> is_text (row (lit ''Artist Name'')) \<or>
      (name_matches lower artist row \<and> (\<exists>e. parse_csv_row lower row = Inl e))"
    by (simp add: raises_in_search_def parse_csv_row_raises_iff)
  from matching_lines_raises [OF member this] obtain e where
    "matching_lines lower (lower artist) data = Inl e"
    by blast
  then show "\<exists>e. search_results lower artist data = Inl e"
    by (simp add: search_results_def and_then_def)
next
  assume quiet: "\<not> list_ex (raises_in_search lower artist) data"
  from matching_lines_exact [OF quiet] obtain lines where
    lines: "matching_lines lower (lower artist) data = Inr lines"
    and parsed: "map Inr lines =
      map (parse_csv_row lower) (filter (name_matches lower artist) data)"
    by blast
  define rows where "rows = take 5 (filter (name_matches lower artist) data)"
  from lines have results: "search_results lower artist data = Inr (take 5 lines)"
    by (simp add: search_results_def and_then_def)
  from parsed have same: "map Inr (take 5 lines) = map (parse_csv_row lower) rows"
    unfolding rows_def by (metis take_map)
  have matching: "list_all (name_matches lower artist) rows"
    by (auto simp: rows_def list_all_iff dest: in_set_takeD)
  have "subseq (filter (name_matches lower artist) data) data"
    by simp
  moreover have "subseq rows (filter (name_matches lower artist) data)"
    unfolding rows_def by (metis append_take_drop_id list_emb_prefix subseq_order.order_refl)
  ultimately have order: "subseq rows data"
    by (rule subseq_order.order_trans [rotated])
  from results same matching order show "\<exists>rows results.
      search_results lower artist data = Inr results \<and>
      rows = take 5 (filter (name_matches lower artist) data) \<and>
      map Inr results = map (parse_csv_row lower) rows \<and>
      list_all (name_matches lower artist) rows \<and>
      length results \<le> 5 \<and>
      subseq rows data"
    unfolding rows_def by auto
next
  assume ascii: "lowers_ascii lower \<and> list_all (\<lambda>c. c < 128) artist \<and>
    list_all (\<lambda>c. c < 128) n \<and> row (lit ''Artist Name'') = Some (Str n)"
  then have "lower artist = ascii_lower artist" and "lower n = ascii_lower n"
    by (simp_all add: lowers_ascii_def)
  with ascii show "name_matches lower artist row \<longleftrightarrow> contains_ignoring_case artist n"
    by (simp add: name_matches_def sublist_ascii_lower)
qed


lemma plain_row_parse: "parse_csv_row ascii_lower (plain_row name) = Inr (plain_text name)"
proof -
  have "rewrite_url (lit ''https://example.com/x'') = lit ''https://example.com/x''"
    by (simp add: rewrite_url_def GOOGLE_SHEETS_RE_match_def sheets_prefix_def lit_def)
  with not_yes show ?thesis
    by (simp add: plain_row_def plain_text_def mk_row_parse display_name_def)
qed

lemma plain_row_matches:
  "name_matches ascii_lower artist (plain_row name) \<longleftrightarrow>
     sublist (ascii_lower artist) (ascii_lower name)"
  by (simp add: name_matches_def plain_row_def mk_row_name)

lemma plain_row_getitem: "getitem (plain_row name) (lit ''Artist Name'') = Inr (Str name)"
  by (simp add: getitem_def plain_row_def mk_row_name)

lemma mk_row_readable: "\<not> unreadable (mk_row artist best url credit links updated)"
  by (simp add: unreadable_def required_keys_def mk_row_def lit_def)

lemma plain_row_quiet: "\<not> raises_in_search lower artist (plain_row name)"
  by (simp add: raises_in_search_def plain_row_def mk_row_name mk_row_readable)

lemma none_credit_name: "none_credit_row (lit ''Artist Name'') = Some (Str (lit ''Bob 0''))"
  by (simp add: none_credit_row_def mk_row_def lit_def)

lemma none_credit_quiet: "\<not> raises_in_search lower artist none_credit_row"
  by (simp add: raises_in_search_def none_credit_name)
     (simp add: unreadable_def required_keys_def none_credit_row_def mk_row_def lit_def)

lemma none_credit_parse: "parse_csv_row ascii_lower none_credit_row = Inr none_credit_text"
proof -
  have "rewrite_url (lit ''https://example.com/x'') = lit ''https://example.com/x''"
    by (simp add: rewrite_url_def GOOGLE_SHEETS_RE_match_def sheets_prefix_def lit_def)
  with not_yes show ?thesis
    by (simp add: none_credit_row_def none_credit_text_def parse_csv_row_def mk_row_def
          and_then_def getitem_def str_or_def display_name_def lit_def)
qed

lemma bobby_raises: "raises_in_search ascii_lower (lit ''bOb'') bobby_short_row"
  by (simp add: raises_in_search_def name_matches_def bobby_name unreadable_def
        bobby_short_row_def ascii_lower_def lit_def sublist_code(3))

theorem search_results_exact_witness:
  "\<not> list_ex (raises_in_search ascii_lower (lit ''bOb'')) (none_credit_row # example_data) \<and>
   search_results ascii_lower (lit ''bOb'') (none_credit_row # example_data) =
     Inr (none_credit_text #
          map plain_text [lit ''Bob 1'', lit ''Bob 2'', lit ''bob 3'', lit ''BOB 4'']) \<and>
   list_ex (raises_in_search ascii_lower (lit ''bOb'')) (example_data @ [bobby_short_row]) \<and>
   (\<exists>e. search_results ascii_lower (lit ''bOb'') (example_data @ [bobby_short_row]) = Inl e) \<and>
   lowers_ascii ascii_lower \<and>
   name_matches ascii_lower (lit ''bOb'') (plain_row (lit ''BOB 4'')) \<and>
   contains_ignoring_case (lit ''bOb'') (lit ''BOB 4'')"
proof -
  have quiet: "\<not> list_ex (raises_in_search ascii_lower (lit ''bOb'')) (none_credit_row # example_data)"
    by (simp add: example_data_def plain_row_quiet none_credit_quiet)
  have loud: "list_ex (raises_in_search ascii_lower (lit ''bOb'')) (example_data @ [bobby_short_row])"
    by (simp add: bobby_raises)
  have la: "lowers_ascii ascii_lower"
    by (simp add: lowers_ascii_def)
  have first: "name_matches ascii_lower (lit ''bOb'') none_credit_row"
    by (simp add: name_matches_def none_credit_name)
       (simp add: ascii_lower_def lit_def sublist_code(3))
  have found: "take 5 (filter (name_matches ascii_lower (lit ''bOb'')) (none_credit_row # example_data)) =
      none_credit_row # map plain_row [lit ''Bob 1'', lit ''Bob 2'', lit ''bob 3'', lit ''BOB 4'']"
    using first
    by (simp add: example_data_def plain_row_matches ascii_lower_def lit_def sublist_code(3))
  have ascii: "list_all (\<lambda>c. c < 128) (lit ''bOb'')" "list_all (\<lambda>c. c < 128) (lit ''BOB 4'')"
    by (simp_all add: lit_def)
  have name: "plain_row (lit ''BOB 4'') (lit ''Artist Name'') = Some (Str (lit ''BOB 4''))"
    by (simp add: plain_row_def mk_row_name)
  have ci: "contains_ignoring_case (lit ''bOb'') (lit ''BOB 4'')"
    by (simp add: lit_def same_letter_def is_upper_def)
  note fact = search_results_exact [of ascii_lower "lit ''bOb''"]
  from fact [of "none_credit_row # example_data"] quiet obtain results where
    results: "search_results ascii_lower (lit ''bOb'') (none_credit_row # example_data) = Inr results"
    and parsed: "map Inr results = map (parse_csv_row ascii_lower)
      (take 5 (filter (name_matches ascii_lower (lit ''bOb'')) (none_credit_row # example_data)))"
    by blast
  from parsed have "map Inr results = map (Inr :: ustr \<Rightarrow> row_error + ustr)
      (none_credit_text # map plain_text [lit ''Bob 1'', lit ''Bob 2'', lit ''bob 3'', lit ''BOB 4''])"
    unfolding found by (simp add: plain_row_parse none_credit_parse)
  then have listed: "results =
      none_credit_text # map plain_text [lit ''Bob 1'', lit ''Bob 2'', lit ''bob 3'', lit ''BOB 4'']"
    by (simp only: inj_map_eq_map [OF inj_Inr])
  from fact [of "example_data @ [bobby_short_row]"] loud
  have raised: "\<exists>e. search_results ascii_lower (lit ''bOb'') (example_data @ [bobby_short_row]) = Inl e"
    by blast
  from fact [of "[]" "lit ''BOB 4''" "plain_row (lit ''BOB 4'')"] la ascii name ci
  have matched: "name_matches ascii_lower (lit ''bOb'') (plain_row (lit ''BOB 4''))"
    by blast
  from quiet results listed loud raised la matched ci show ?thesis
    by simp
qed

lemma and_then_simps:
  "and_then (Inl e) f = Inl e"
  "and_then (Inr x) f = f x"
  by (simp_all add: and_then_def)

lemma matching_lines_plain_row:
  "matching_lines ascii_lower query (plain_row name # data) =
     (if sublist query (ascii_lower name)
      then and_then (matching_lines ascii_lower query data) (\<lambda>lines. Inr (plain_text name # lines))
      else matching_lines ascii_lower query data)"
  by (simp add: plain_row_getitem and_then_def str_or_def plain_row_parse)

lemma matching_lines_bobby:
  "sublist query (ascii_lower (lit ''Bobby'')) \<Longrightarrow>
     matching_lines ascii_lower query (bobby_short_row # data) = Inl AttributeError"
  by (simp add: getitem_def bobby_name and_then_def str_or_def bobby_parse)

lemma bob_hits:
  "sublist (lit ''bob'') (ascii_lower (lit ''Bob 1''))"
  "\<not> sublist (lit ''bob'') (ascii_lower (lit ''Alice''))"
  "sublist (lit ''bob'') (ascii_lower (lit ''Bob 2''))"
  "sublist (lit ''bob'') (ascii_lower (lit ''bob 3''))"
  "sublist (lit ''bob'') (ascii_lower (lit ''BOB 4''))"
  "sublist (lit ''bob'') (ascii_lower (lit ''Bob 5''))"
  "sublist (lit ''bob'') (ascii_lower (lit ''Bob 6''))"
  "sublist (lit ''bob'') (ascii_lower (lit ''Bobby''))"
  by (simp_all add: ascii_lower_def lit_def sublist_code(3))

text \<open>
  C1 as the specification words it fails: five rows of the dataset match \<open>bob\<close>, and
  the search returns none of them, because Bobby's short line, which also matches, comes
  after them.
\<close>

theorem search_raises_after_five_matches:
  "take 5 (filter (name_matches ascii_lower (lit ''bob'')) (example_data @ [bobby_short_row])) =
     map plain_row [lit ''Bob 1'', lit ''Bob 2'', lit ''bob 3'', lit ''BOB 4'', lit ''Bob 5''] \<and>
   search_results ascii_lower (lit ''bob'') (example_data @ [bobby_short_row]) =
     Inl AttributeError \<and>
   search ascii_lower (reads_as (example_data @ [bobby_short_row])) (Reply 200 [])
     (Some ALLOWED_GUILD_ID) (lit ''bob'') =
     \<lparr>trace = [Defer, HttpGet CSV_URL], escaped = Some AttributeError\<rparr>"
proof -
  have bobby: "name_matches ascii_lower (lit ''bob'') bobby_short_row"
    using bobby_matches by (simp add: name_matches_def bobby_name)
  have found: "take 5 (filter (name_matches ascii_lower (lit ''bob''))
      (example_data @ [bobby_short_row])) =
      map plain_row [lit ''Bob 1'', lit ''Bob 2'', lit ''bob 3'', lit ''BOB 4'', lit ''Bob 5'']"
    using bobby
    by (simp add: example_data_def plain_row_matches ascii_lower_def lit_def sublist_code(3))
  have low: "ascii_lower (lit ''bob'') = lit ''bob''"
    by (simp add: ascii_lower_def lit_def)
  have raised: "search_results ascii_lower (lit ''bob'') (example_data @ [bobby_short_row]) =
      Inl AttributeError"
    by (simp add: search_results_def example_data_def low matching_lines_plain_row
          matching_lines_bobby bob_hits and_then_simps del: matching_lines.simps(2))
  have "fetch_csv (reads_as (example_data @ [bobby_short_row])) (Reply 200 []) =
      Inr (example_data @ [bobby_short_row])"
    by (simp add: fetch_csv_def reads_as_def)
  with found raised show ?thesis
    by (simp add: search_def)
qed

end
